theory Spec2Isabelle
  imports Complex_Main
begin

section \<open>Energy management calendar: the state and the derived views of src/app/page.tsx\<close>

text \<open>
  The component \<open>EnergyManagementCalendar\<close> keeps four pieces of state
  (\<open>visibleMonth\<close>, \<open>events\<close>, \<open>activeFilter\<close>, \<open>newEvent\<close>) and derives the
  month grid, the month summary and the recommendations from them. The embedding below
  follows the source function by function.

  Conventions of the embedding.
  \<^item> A JavaScript \<open>number\<close> is a \<open>real\<close>: arithmetic is exact, so the rounding,
    overflow and signed zero of IEEE doubles are outside the model. \<open>NaN\<close>, which the
    source tests for after \<open>Number(...)\<close>, is the value \<open>None\<close> of \<open>real option\<close>.
  \<^item> A JavaScript string is a \<open>string\<close> (a list of 8-bit characters).
  \<^item> A JavaScript \<open>Date\<close> is the number of its local calendar day, counted from
    1970-01-01 (day 0); the time of day, time zones and daylight saving are outside the
    model.
  \<^item> \<open>Date.now()\<close> is an argument of the function that reads it.
\<close>

subsection \<open>Strings\<close>

definition isDigit :: "char \<Rightarrow> bool" where
  "isDigit c = (c \<in> set ''0123456789'')"

definition digitValue :: "char \<Rightarrow> nat" where
  "digitValue c = of_char c - 48"

text \<open>White space and line terminators that \<open>String.prototype.trim\<close> strips, as far as
  they are 8-bit characters: TAB, LF, VT, FF, CR, SP and NBSP.\<close>

definition isWhiteSpace :: "char \<Rightarrow> bool" where
  "isWhiteSpace c = (of_char c \<in> {9, 10, 11, 12, 13, 32, 160 :: nat})"

definition trim :: "string \<Rightarrow> string" where
  "trim s = rev (dropWhile isWhiteSpace (rev (dropWhile isWhiteSpace s)))"

text \<open>\<open>s.startsWith(p)\<close>.\<close>

definition startsWith :: "string \<Rightarrow> string \<Rightarrow> bool" where
  "startsWith s p = (take (length p) s = p)"

text \<open>\<open>xs.join(sep)\<close>.\<close>

fun join :: "string \<Rightarrow> string list \<Rightarrow> string" where
  "join sep [] = []"
| "join sep [x] = x"
| "join sep (x # y # ys) = x @ sep @ join sep (y # ys)"

text \<open>The decimal numeral of a natural number, as \<open>Number.prototype.toString\<close> and a
  template literal print a non-negative integer below \<open>10^21\<close>.\<close>

fun toString :: "nat \<Rightarrow> string" where
  "toString n = (if n < 10 then [char_of (48 + n)] else toString (n div 10) @ [char_of (48 + n mod 10)])"

declare toString.simps [simp del]

text \<open>\<open>s.padStart(n, "0")\<close>.\<close>

definition padStart0 :: "nat \<Rightarrow> string \<Rightarrow> string" where
  "padStart0 n s = replicate (n - length s) CHR ''0'' @ s"

text \<open>The value of a string of decimal digits, most significant digit first.\<close>

definition digitsValue :: "string \<Rightarrow> real" where
  "digitsValue ds = foldl (\<lambda>a c. 10 * a + real (digitValue c)) 0 ds"

text \<open>
  \<open>Number(s)\<close> on a string. The energy field only ever holds what \<open>handleChange\<close>
  lets through, digits and full stops, and on such strings \<open>StringToNumber\<close> is: the
  empty string is 0; digits with at most one full stop and at least one digit are the
  decimal they spell (\<open>"5."\<close> is 5, \<open>".5"\<close> is 0.5); everything else (\<open>"."\<close>,
  \<open>"1.2.3"\<close>) is \<open>NaN\<close>. Signs, exponents, surrounding white space, radix prefixes and
  \<open>Infinity\<close> need characters the field never holds; the model answers \<open>NaN\<close> for them.
\<close>

definition Number :: "string \<Rightarrow> real option" where
  "Number s =
     (let ip = takeWhile isDigit s; rest = dropWhile isDigit s in
      case rest of
        [] \<Rightarrow> Some (digitsValue ip)
      | c # fp \<Rightarrow>
          if c = CHR ''.'' \<and> list_all isDigit fp \<and> (ip \<noteq> [] \<or> fp \<noteq> [])
          then Some (digitsValue ip + digitsValue fp / 10 ^ length fp)
          else None)"

text \<open>\<open>Math.round\<close>: the nearest integer, a tie going up.\<close>

definition Math_round :: "real \<Rightarrow> real" where
  "Math_round x = of_int \<lfloor>x + 1 / 2\<rfloor>"

subsection \<open>Dates\<close>

text \<open>
  Modelled from the spec: the date utility collaborator (the package date-fns and the
  built-in \<open>Date\<close> it works on) is not under src/. Section 6 of the spec requires it
  to be correct for the Gregorian calendar in local time; the definitions below are that
  calendar, with the day arithmetic of the ECMAScript \<open>Date\<close> object
  (\<open>DayFromYear\<close>, \<open>YearFromTime\<close>, \<open>MonthFromTime\<close>, \<open>DateFromTime\<close>, \<open>WeekDay\<close>,
  \<open>MakeDay\<close>) and the library functions written over it.
\<close>

type_synonym Date = int

text \<open>Modelled from the spec: the day number of 1 January of year \<open>y\<close>.\<close>

definition dayFromYear :: "int \<Rightarrow> int" where
  "dayFromYear y = 365 * (y - 1970) + (y - 1969) div 4 - (y - 1901) div 100 + (y - 1601) div 400"

text \<open>Modelled from the spec: the Gregorian leap year rule, as 0 or 1.\<close>

definition inLeapYear :: "int \<Rightarrow> int" where
  "inLeapYear y =
     (if y mod 4 \<noteq> 0 then 0 else if y mod 100 \<noteq> 0 then 1 else if y mod 400 \<noteq> 0 then 0 else 1)"

text \<open>Modelled from the spec: the year of a day is the largest \<open>y\<close> with
  \<open>dayFromYear y \<le> d\<close>, found by stepping down and then up from an estimate.\<close>

function yearDown :: "int \<Rightarrow> Date \<Rightarrow> int" where
  "yearDown y d = (if d < dayFromYear y then yearDown (y - 1) d else y)"
  by pat_completeness auto
termination
proof (relation "measure (\<lambda>(y, d). nat (dayFromYear y - d))")
  show "wf (measure (\<lambda>(y, d). nat (dayFromYear y - d)))"
    by simp
next
  fix y d :: int
  assume less: "d < dayFromYear y"
  have gen: "a' \<le> a \<Longrightarrow> b \<le> b' + 1 \<Longrightarrow> c' \<le> c \<Longrightarrow>
      365 * (y - 1 - 1970) + a' - b' + c' < 365 * (y - 1970) + a - b + c"
    for a a' b b' c c' :: int
    by simp
  have a: "(y - 1 - 1969) div 4 \<le> (y - 1969) div 4"
    by (rule zdiv_mono1) simp_all
  have b: "(y - 1901) div 100 \<le> (y - 1 - 1901) div 100 + 1"
    using zdiv_mono1 [of "y - 1901" "y - 1 - 1901 + 100" 100] by simp
  have c: "(y - 1 - 1601) div 400 \<le> (y - 1601) div 400"
    by (rule zdiv_mono1) simp_all
  have "dayFromYear (y - 1) < dayFromYear y"
    unfolding dayFromYear_def by (rule gen [OF a b c])
  with less show "((y - 1, d), (y, d)) \<in> measure (\<lambda>(y, d). nat (dayFromYear y - d))"
    by simp
qed

text \<open>Modelled from the spec: the step up of the same search, to the last year that
  begins on or before the day.\<close>

function yearUp :: "int \<Rightarrow> Date \<Rightarrow> int" where
  "yearUp y d = (if dayFromYear (y + 1) \<le> d then yearUp (y + 1) d else y)"
  by pat_completeness auto
termination
proof (relation "measure (\<lambda>(y, d). nat (d + 1 - dayFromYear (y + 1)))")
  show "wf (measure (\<lambda>(y, d). nat (d + 1 - dayFromYear (y + 1))))"
    by simp
next
  fix y d :: int
  assume le: "dayFromYear (y + 1) \<le> d"
  have gen: "a' \<le> a \<Longrightarrow> b \<le> b' + 1 \<Longrightarrow> c' \<le> c \<Longrightarrow>
      365 * (y + 1 - 1970) + a' - b' + c' < 365 * (y + 1 + 1 - 1970) + a - b + c"
    for a a' b b' c c' :: int
    by simp
  have a: "(y + 1 - 1969) div 4 \<le> (y + 1 + 1 - 1969) div 4"
    by (rule zdiv_mono1) simp_all
  have b: "(y + 1 + 1 - 1901) div 100 \<le> (y + 1 - 1901) div 100 + 1"
    using zdiv_mono1 [of "y + 1 + 1 - 1901" "y + 1 - 1901 + 100" 100] by simp
  have c: "(y + 1 - 1601) div 400 \<le> (y + 1 + 1 - 1601) div 400"
    by (rule zdiv_mono1) simp_all
  have "dayFromYear (y + 1) < dayFromYear (y + 1 + 1)"
    unfolding dayFromYear_def by (rule gen [OF a b c])
  with le show "((y + 1, d), (y, d)) \<in> measure (\<lambda>(y, d). nat (d + 1 - dayFromYear (y + 1)))"
    by simp
qed

declare yearDown.simps [simp del]
declare yearUp.simps [simp del]

text \<open>Modelled from the spec: \<open>Date.prototype.getFullYear\<close>.\<close>

definition getFullYear :: "Date \<Rightarrow> int" where
  "getFullYear d = yearUp (yearDown (1970 + d div 365) d) d"

text \<open>Modelled from the spec: the day within the year (from 0) on which month \<open>m\<close>
  (from 0; 12 is the following January) begins, \<open>leap\<close> being 0 or 1.\<close>

definition monthStart :: "int \<Rightarrow> int \<Rightarrow> int" where
  "monthStart leap m =
     (if m \<le> 0 then 0 else if m = 1 then 31 else if m = 2 then 59 + leap
      else if m = 3 then 90 + leap else if m = 4 then 120 + leap else if m = 5 then 151 + leap
      else if m = 6 then 181 + leap else if m = 7 then 212 + leap else if m = 8 then 243 + leap
      else if m = 9 then 273 + leap else if m = 10 then 304 + leap else if m = 11 then 334 + leap
      else 365 + leap)"

text \<open>Modelled from the spec: the day within its year, from 0.\<close>

definition dayWithinYear :: "Date \<Rightarrow> int" where
  "dayWithinYear d = d - dayFromYear (getFullYear d)"

text \<open>Modelled from the spec: \<open>Date.prototype.getMonth\<close>, from 0 for January.\<close>

definition getMonth :: "Date \<Rightarrow> int" where
  "getMonth d =
     (let leap = inLeapYear (getFullYear d); w = dayWithinYear d in
      if w < monthStart leap 1 then 0 else if w < monthStart leap 2 then 1
      else if w < monthStart leap 3 then 2 else if w < monthStart leap 4 then 3
      else if w < monthStart leap 5 then 4 else if w < monthStart leap 6 then 5
      else if w < monthStart leap 7 then 6 else if w < monthStart leap 8 then 7
      else if w < monthStart leap 9 then 8 else if w < monthStart leap 10 then 9
      else if w < monthStart leap 11 then 10 else 11)"

text \<open>Modelled from the spec: \<open>Date.prototype.getDate\<close>, the day of the month from 1.\<close>

definition getDate :: "Date \<Rightarrow> int" where
  "getDate d = dayWithinYear d - monthStart (inLeapYear (getFullYear d)) (getMonth d) + 1"

text \<open>Modelled from the spec: \<open>Date.prototype.getDay\<close>, 0 for Sunday; day 0 is a
  Thursday.\<close>

definition getDay :: "Date \<Rightarrow> int" where
  "getDay d = (d + 4) mod 7"

text \<open>Modelled from the spec: \<open>MakeDay\<close>, the day number of year \<open>y\<close>, month \<open>m\<close>
  (from 0) and day of the month \<open>dt\<close>; a month or a day out of range moves into the
  neighbouring years and months.\<close>

definition makeDay :: "int \<Rightarrow> int \<Rightarrow> int \<Rightarrow> Date" where
  "makeDay y m dt =
     (let ym = y + m div 12; mn = m mod 12 in
      dayFromYear ym + monthStart (inLeapYear ym) mn + dt - 1)"

text \<open>Modelled from the spec: \<open>Date.prototype.setDate\<close>, the date with its day of
  the month replaced.\<close>

definition setDate :: "Date \<Rightarrow> int \<Rightarrow> Date" where
  "setDate d dt = makeDay (getFullYear d) (getMonth d) dt"

text \<open>Modelled from the spec: the three-argument \<open>Date.prototype.setFullYear\<close>,
  which replaces year, month and day of the month.\<close>

definition setFullYear :: "Date \<Rightarrow> int \<Rightarrow> int \<Rightarrow> int \<Rightarrow> Date" where
  "setFullYear d y m dt = makeDay y m dt"

text \<open>Modelled from the spec: date-fns \<open>startOfMonth\<close> sets the day of the month to 1.\<close>

definition startOfMonth :: "Date \<Rightarrow> Date" where
  "startOfMonth d = setDate d 1"

text \<open>Modelled from the spec: date-fns \<open>endOfMonth\<close> sets the date to day 0 of the
  following month.\<close>

definition endOfMonth :: "Date \<Rightarrow> Date" where
  "endOfMonth d = (let month = getMonth d in setFullYear d (getFullYear d) (month + 1) 0)"

text \<open>Modelled from the spec: date-fns \<open>startOfWeek\<close> with the option
  \<open>weekStartsOn\<close> moves back to the day the week starts on.\<close>

definition startOfWeek :: "Date \<Rightarrow> int \<Rightarrow> Date" where
  "startOfWeek d weekStartsOn =
     (let day = getDay d;
          diff = (if day < weekStartsOn then 7 else 0) + day - weekStartsOn
      in setDate d (getDate d - diff))"

text \<open>Modelled from the spec: date-fns \<open>endOfWeek\<close> with the option
  \<open>weekStartsOn\<close> moves on to the last day of the week.\<close>

definition endOfWeek :: "Date \<Rightarrow> int \<Rightarrow> Date" where
  "endOfWeek d weekStartsOn =
     (let day = getDay d;
          diff = (if day < weekStartsOn then - 7 else 0) + 6 - (day - weekStartsOn)
      in setDate d (getDate d + diff))"

text \<open>Modelled from the spec: the loop of date-fns \<open>eachDayOfInterval\<close> pushes the
  current date and moves it one day on while it is not after the end. Not returning is
  the value \<open>None\<close>.\<close>

partial_function (option) eachDayLoop :: "Date \<Rightarrow> Date \<Rightarrow> Date list \<Rightarrow> Date list option" where
  "eachDayLoop currentDate endTime dates =
     (if currentDate \<le> endTime
      then eachDayLoop (setDate currentDate (getDate currentDate + 1)) endTime (dates @ [currentDate])
      else Some dates)"

declare eachDayLoop.simps [code]

text \<open>Modelled from the spec: date-fns \<open>eachDayOfInterval\<close>; an interval whose start
  is after its end is enumerated from its end and reversed.\<close>

definition eachDayOfInterval :: "Date \<Rightarrow> Date \<Rightarrow> Date list option" where
  "eachDayOfInterval start end' =
     (let reversed = (start > end');
          endTime = (if reversed then start else end');
          currentDate = (if reversed then end' else start)
      in map_option (\<lambda>dates. if reversed then rev dates else dates)
           (eachDayLoop currentDate endTime []))"

text \<open>Modelled from the spec: date-fns \<open>format\<close> with the pattern \<open>"yyyy-MM"\<close>: the
  year (a year before 1 as the year of its era) in at least four digits, a hyphen, and
  the month from 01.\<close>

definition format_yyyy_MM :: "Date \<Rightarrow> string" where
  "format_yyyy_MM d =
     (let signedYear = getFullYear d;
          year = (if signedYear > 0 then signedYear else 1 - signedYear)
      in padStart0 4 (toString (nat year)) @ ''-'' @ padStart0 2 (toString (nat (getMonth d + 1))))"

text \<open>Modelled from the spec: date-fns \<open>format\<close> with the pattern \<open>"yyyy-MM-dd"\<close>
  adds a hyphen and the day of the month in two digits.\<close>

definition format_yyyy_MM_dd :: "Date \<Rightarrow> string" where
  "format_yyyy_MM_dd d = format_yyyy_MM d @ ''-'' @ padStart0 2 (toString (nat (getDate d)))"

text \<open>\<open>monthInterval\<close> (page.tsx, lines 171 to 175): the grid of the visible month.\<close>

definition monthInterval :: "Date \<Rightarrow> Date list option" where
  "monthInterval visibleMonth =
     (let start = startOfWeek (startOfMonth visibleMonth) 0;
          end' = endOfWeek (endOfMonth visibleMonth) 0
      in eachDayOfInterval start end')"

text \<open>Modelled from the spec: date-fns \<open>isSameMonth\<close>, the same year and the same month.\<close>

definition isSameMonth :: "Date \<Rightarrow> Date \<Rightarrow> bool" where
  "isSameMonth a b = (getFullYear a = getFullYear b \<and> getMonth a = getMonth b)"

subsection \<open>Events and the state of the component\<close>

datatype EnergyType = Demand | Production | Storage | Provision

datatype Status = Scheduled | Completed | Opportunity

text \<open>The type \<open>EnergyEvent\<close> (page.tsx, lines 19 to 30). The field \<open>id\<close> is \<open>id_ev\<close>
  here; the optional \<open>notes\<close> is the option \<open>notes_ev\<close>.\<close>

record EnergyEvent =
  id_ev :: string
  title :: string
  type :: EnergyType
  date :: string
  startTime :: string
  endTime :: string
  energyKwh :: real
  status :: Status
  efficiencyScore :: real
  notes_ev :: "string option"

text \<open>The draft \<open>newEvent\<close> (lines 160 to 169); its energy is text.\<close>

record NewEvent =
  new_title :: string
  new_type :: EnergyType
  new_date :: string
  new_startTime :: string
  new_endTime :: string
  new_energyKwh :: string
  new_status :: Status
  new_notes :: string

text \<open>The four \<open>useState\<close> cells; \<open>activeFilter\<close> is \<open>None\<close> for \<open>"All"\<close>.\<close>

record AppState =
  visibleMonth :: Date
  events :: "EnergyEvent list"
  activeFilter :: "EnergyType option"
  newEvent :: NewEvent

text \<open>\<open>initialEvents\<close> (lines 32 to 117); \<open>now\<close> is the day on which the module is
  loaded, and \<open>format(new Date(), "yyyy-MM-05")\<close> is the month key followed by the
  literal text.\<close>

definition initialEvents :: "Date \<Rightarrow> EnergyEvent list" where
  "initialEvents now =
     [\<lparr>id_ev = ''event-1'', title = ''EV Fleet Charging'', type = Demand,
       date = format_yyyy_MM now @ ''-05'', startTime = ''19:00'', endTime = ''22:30'',
       energyKwh = 420, status = Scheduled, efficiencyScore = 68,
       notes_ev = Some ''Aligned with evening time-of-use incentives.''\<rparr>,
      \<lparr>id_ev = ''event-2'', title = ''Solar Array Generation'', type = Production,
       date = format_yyyy_MM now @ ''-06'', startTime = ''07:30'', endTime = ''17:30'',
       energyKwh = 560, status = Completed, efficiencyScore = 92,
       notes_ev = Some ''Exceeded forecast by 8% due to clear skies.''\<rparr>,
      \<lparr>id_ev = ''event-3'', title = ''Battery Reserve Charge'', type = Storage,
       date = format_yyyy_MM now @ ''-08'', startTime = ''00:30'', endTime = ''02:00'',
       energyKwh = 135, status = Scheduled, efficiencyScore = 83,
       notes_ev = Some ''Nighttime charging to prep for peak shifting.''\<rparr>,
      \<lparr>id_ev = ''event-4'', title = ''Community Energy Share'', type = Provision,
       date = format_yyyy_MM now @ ''-10'', startTime = ''14:00'', endTime = ''16:00'',
       energyKwh = 220, status = Completed, efficiencyScore = 88,
       notes_ev = Some ''Delivered surplus to adjacent microgrid.''\<rparr>,
      \<lparr>id_ev = ''event-5'', title = ''Data Center Load Test'', type = Demand,
       date = format_yyyy_MM now @ ''-15'', startTime = ''13:00'', endTime = ''15:00'',
       energyKwh = 315, status = Scheduled, efficiencyScore = 54,
       notes_ev = Some ''Consider shifting to weekend window.''\<rparr>,
      \<lparr>id_ev = ''event-6'', title = ''Wind Turbine Peak'', type = Production,
       date = format_yyyy_MM now @ ''-17'', startTime = ''02:00'', endTime = ''05:00'',
       energyKwh = 410, status = Completed, efficiencyScore = 79,
       notes_ev = Some ''Met forecast; turbulence reduced output by 5%.''\<rparr>,
      \<lparr>id_ev = ''event-7'', title = ''Thermal Storage Discharge'', type = Storage,
       date = format_yyyy_MM now @ ''-22'', startTime = ''16:30'', endTime = ''19:00'',
       energyKwh = 190, status = Opportunity, efficiencyScore = 72,
       notes_ev = Some ''Dispatch to cover peak pricing interval.''\<rparr>]"

text \<open>The initial values of the state cells (lines 156 to 169).\<close>

definition initialState :: "Date \<Rightarrow> AppState" where
  "initialState now =
     \<lparr>visibleMonth = startOfMonth now,
      events = initialEvents now,
      activeFilter = None,
      newEvent = \<lparr>new_title = [], new_type = Demand, new_date = format_yyyy_MM_dd now,
                  new_startTime = ''08:00'', new_endTime = ''09:00'', new_energyKwh = [],
                  new_status = Scheduled, new_notes = []\<rparr>\<rparr>"

subsection \<open>The month summary (lines 184 to 220)\<close>

record MonthSummary =
  totalsByType :: "EnergyType \<Rightarrow> real"
  totalConsumption :: real
  totalProduction :: real
  storageBuffer :: real
  netBalance :: real
  completedCount :: nat
  totalEvents :: nat
  averageEfficiency :: real

definition summary :: "EnergyEvent list \<Rightarrow> Date \<Rightarrow> MonthSummary" where
  "summary evs month =
     (let monthKey = format_yyyy_MM month;
          monthEvents = filter (\<lambda>event. startsWith (date event) monthKey) evs;
          totals = foldl (\<lambda>acc event. acc(type event := acc (type event) + energyKwh event))
                     (\<lambda>_. 0) monthEvents;
          consumption = totals Demand;
          production = totals Production + totals Provision;
          buffer = totals Storage;
          net = production + buffer - consumption;
          completed = length (filter (\<lambda>event. status event = Completed) monthEvents);
          average =
            (if length monthEvents > 0
             then Math_round (foldl (\<lambda>acc event. acc + efficiencyScore event) 0 monthEvents
                               / real (length monthEvents))
             else 0)
      in \<lparr>totalsByType = totals, totalConsumption = consumption, totalProduction = production,
          storageBuffer = buffer, netBalance = net, completedCount = completed,
          totalEvents = length monthEvents, averageEfficiency = average\<rparr>)"

subsection \<open>The recommendations (lines 222 to 260)\<close>

record Recommendation =
  rec_title :: string
  rec_detail :: string

definition recommendations :: "MonthSummary \<Rightarrow> EnergyEvent list \<Rightarrow> Recommendation list" where
  "recommendations s evs =
     (let recs1 =
            (if netBalance s < 0
             then [\<lparr>rec_title = ''Net Load Imbalance'',
                    rec_detail = ''Demand outpaces supply this month. Shift flexible loads (e.g., EV charging) into early morning windows or increase storage dispatch.''\<rparr>]
             else [\<lparr>rec_title = ''Positive Net Balance'',
                    rec_detail = ''You're producing more energy than you consume. Schedule a provision event to export surplus during afternoon peak pricing.''\<rparr>]);
          recs2 =
            (if totalsByType s Demand > totalsByType s Production * 1.2
             then recs1 @ [\<lparr>rec_title = ''Demand Peaks Forecasted'',
                    rec_detail = ''Forecasted demand is 20% above on-site production. Consider adding a demand response event or activating backup generation.''\<rparr>]
             else recs1);
          lowEfficiencyEvents =
            map title (take 2 (filter (\<lambda>event. efficiencyScore event < 70) evs))
      in if length lowEfficiencyEvents > 0
         then recs2 @ [\<lparr>rec_title = ''Improve Efficiency Scores'',
                rec_detail = ''Optimize schedules for '' @ join '' & '' lowEfficiencyEvents
                  @ '' to boost their efficiency ratings above 70%.''\<rparr>]
         else recs2)"

subsection \<open>The form (lines 266 to 306)\<close>

text \<open>\<open>value.replace(/[^0-9.]/g, "")\<close>: every character that is neither a digit nor a
  full stop is removed.\<close>

definition stripNonNumeric :: "string \<Rightarrow> string" where
  "stripNonNumeric v = filter (\<lambda>c. isDigit c \<or> c = CHR ''.'') v"

text \<open>The texts of digits and full stops, the only ones the energy field holds.\<close>

definition numericText :: "string \<Rightarrow> bool" where
  "numericText s = list_all (\<lambda>c. isDigit c \<or> c = CHR ''.'') s"

text \<open>A call \<open>handleChange(field, value)\<close> of the form: the field's name with the value
  of its control. The two select controls offer the constructors below as values.\<close>

datatype FieldChange =
  ChangeTitle string
  | ChangeType EnergyType
  | ChangeDate string
  | ChangeStartTime string
  | ChangeEndTime string
  | ChangeEnergyKwh string
  | ChangeStatus Status
  | ChangeNotes string

fun handleChange :: "FieldChange \<Rightarrow> AppState \<Rightarrow> AppState" where
  "handleChange (ChangeTitle v) st = st\<lparr>newEvent := (newEvent st)\<lparr>new_title := v\<rparr>\<rparr>"
| "handleChange (ChangeType v) st = st\<lparr>newEvent := (newEvent st)\<lparr>new_type := v\<rparr>\<rparr>"
| "handleChange (ChangeDate v) st = st\<lparr>newEvent := (newEvent st)\<lparr>new_date := v\<rparr>\<rparr>"
| "handleChange (ChangeStartTime v) st = st\<lparr>newEvent := (newEvent st)\<lparr>new_startTime := v\<rparr>\<rparr>"
| "handleChange (ChangeEndTime v) st = st\<lparr>newEvent := (newEvent st)\<lparr>new_endTime := v\<rparr>\<rparr>"
| "handleChange (ChangeEnergyKwh v) st =
     st\<lparr>newEvent := (newEvent st)\<lparr>new_energyKwh := stripNonNumeric v\<rparr>\<rparr>"
| "handleChange (ChangeStatus v) st = st\<lparr>newEvent := (newEvent st)\<lparr>new_status := v\<rparr>\<rparr>"
| "handleChange (ChangeNotes v) st = st\<lparr>newEvent := (newEvent st)\<lparr>new_notes := v\<rparr>\<rparr>"

text \<open>The derived score of a created event (line 292).\<close>

definition derivedEfficiencyScore :: "real \<Rightarrow> real" where
  "derivedEfficiencyScore energyValue =
     min 100 (max 40 (Math_round (if energyValue > 500 then 80 else 90 - energyValue / 10)))"

text \<open>The event that \<open>handleCreateEvent\<close> builds (lines 283 to 294); \<open>nowMs\<close> is the
  reading of \<open>Date.now()\<close>.\<close>

definition createdEvent :: "nat \<Rightarrow> NewEvent \<Rightarrow> real \<Rightarrow> EnergyEvent" where
  "createdEvent nowMs draft energyValue =
     \<lparr>id_ev = ''event-'' @ toString nowMs,
      title = trim (new_title draft),
      type = new_type draft,
      date = new_date draft,
      startTime = new_startTime draft,
      endTime = new_endTime draft,
      energyKwh = energyValue,
      status = new_status draft,
      efficiencyScore = derivedEfficiencyScore energyValue,
      notes_ev = (if trim (new_notes draft) = [] then None else Some (trim (new_notes draft)))\<rparr>"

text \<open>\<open>handleCreateEvent\<close> (lines 273 to 306): the two early returns leave the state as
  it is; otherwise the event is appended and the draft is reset.\<close>

definition handleCreateEvent :: "nat \<Rightarrow> AppState \<Rightarrow> AppState" where
  "handleCreateEvent nowMs st =
     (let draft = newEvent st in
      if trim (new_title draft) = [] \<or> new_date draft = [] \<or> new_energyKwh draft = [] then st
      else
        case Number (new_energyKwh draft) of
          None \<Rightarrow> st
        | Some energyValue \<Rightarrow>
            if energyValue \<le> 0 then st
            else
              st\<lparr>events := events st @ [createdEvent nowMs draft energyValue],
                 newEvent :=
                   \<lparr>new_title = [], new_type = new_type draft, new_date = new_date draft,
                    new_startTime = ''08:00'', new_endTime = ''09:00'', new_energyKwh = [],
                    new_status = new_status draft, new_notes = []\<rparr>\<rparr>)"

text \<open>The guards of \<open>handleCreateEvent\<close> (lines 275 and 279) as a predicate: the
  submission of the draft is accepted.\<close>

definition accepted :: "AppState \<Rightarrow> bool" where
  "accepted st =
     (let draft = newEvent st in
      trim (new_title draft) \<noteq> [] \<and> new_date draft \<noteq> [] \<and> new_energyKwh draft \<noteq> [] \<and>
      (case Number (new_energyKwh draft) of None \<Rightarrow> False | Some energyValue \<Rightarrow> 0 < energyValue))"

text \<open>What the user does: a field is edited, or the form is submitted while the clock
  reads \<open>nowMs\<close>.\<close>

datatype Action = Edit FieldChange | Submit nat

fun step :: "AppState \<Rightarrow> Action \<Rightarrow> AppState" where
  "step st (Edit c) = handleChange c st"
| "step st (Submit nowMs) = handleCreateEvent nowMs st"

definition run :: "AppState \<Rightarrow> Action list \<Rightarrow> AppState" where
  "run st acts = foldl step st acts"

text \<open>The clock readings of the submissions of a run that were accepted, in order.\<close>

fun acceptedReadings :: "AppState \<Rightarrow> Action list \<Rightarrow> nat list" where
  "acceptedReadings st [] = []"
| "acceptedReadings st (Edit c # acts) = acceptedReadings (handleChange c st) acts"
| "acceptedReadings st (Submit nowMs # acts) =
     (if accepted st then nowMs # acceptedReadings (handleCreateEvent nowMs st) acts
      else acceptedReadings (handleCreateEvent nowMs st) acts)"

subsection \<open>Concrete inputs\<close>

text \<open>States used as concrete inputs: the initial state of the component on
  2024-02-29 with the title and the energy field typed in.\<close>

definition typedState :: "string \<Rightarrow> string \<Rightarrow> AppState" where
  "typedState t e =
     run (initialState 19782) [Edit (ChangeTitle t), Edit (ChangeEnergyKwh e)]"

text \<open>The same state with a late shift typed into the two time fields.\<close>

definition lateShiftState :: AppState where
  "lateShiftState =
     run (initialState 19782)
       [Edit (ChangeTitle ''Night pump''), Edit (ChangeEnergyKwh ''75''),
        Edit (ChangeStartTime ''22:15''), Edit (ChangeEndTime ''23:45'')]"

text \<open>Two runs from the initial state of 2024-02-29: two events are typed in and
  submitted, at different clock readings and at the same one.\<close>

definition twoSubmissions :: "nat \<Rightarrow> nat \<Rightarrow> Action list" where
  "twoSubmissions t1 t2 =
     [Edit (ChangeTitle ''Pump A''), Edit (ChangeEnergyKwh ''5''), Submit t1,
      Edit (ChangeTitle ''Pump B''), Edit (ChangeEnergyKwh ''7''), Submit t2]"

section \<open>The form\<close>

lemma handleCreateEvent_accepted:
  assumes "accepted st"
  shows "\<exists>e. Number (new_energyKwh (newEvent st)) = Some e \<and> 0 < e \<and>
    handleCreateEvent nowMs st =
      st\<lparr>events := events st @ [createdEvent nowMs (newEvent st) e],
         newEvent :=
           \<lparr>new_title = [], new_type = new_type (newEvent st), new_date = new_date (newEvent st),
            new_startTime = ''08:00'', new_endTime = ''09:00'', new_energyKwh = [],
            new_status = new_status (newEvent st), new_notes = []\<rparr>\<rparr>"
  using assms
  by (auto simp: accepted_def handleCreateEvent_def Let_def split: option.splits)

lemma handleCreateEvent_rejected:
  assumes "\<not> accepted st"
  shows "handleCreateEvent nowMs st = st"
  using assms
  by (auto simp: accepted_def handleCreateEvent_def Let_def split: option.splits)

lemma Math_round_of_int: "Math_round (of_int k) = of_int k"
proof -
  have "\<lfloor>(of_int k :: real) + 1 / 2\<rfloor> = k"
    by linarith
  then show ?thesis
    by (simp add: Math_round_def)
qed

lemma Math_round_80: "Math_round 80 = 80"
  using Math_round_of_int [of 80] by simp

lemma Math_round_bounds:
  assumes "of_int lo \<le> x" and "x \<le> of_int hi"
  shows "of_int lo \<le> Math_round x \<and> Math_round x \<le> of_int hi"
proof -
  have "lo \<le> \<lfloor>x + 1 / 2\<rfloor>"
    using assms(1) by linarith
  moreover have "\<lfloor>x + 1 / 2\<rfloor> \<le> hi"
    using assms(2) by linarith
  ultimately show ?thesis
    by (simp add: Math_round_def)
qed

lemma derivedEfficiencyScore_range:
  assumes "0 < e"
  shows "40 \<le> Math_round (if e > 500 then 80 else 90 - e / 10) \<and>
         Math_round (if e > 500 then 80 else 90 - e / 10) \<le> 90"
proof (cases "e > 500")
  case True
  then show ?thesis
    by (simp add: Math_round_80)
next
  case False
  then have "of_int 40 \<le> 90 - e / 10" and "90 - e / 10 \<le> of_int 90"
    using assms by simp_all
  from Math_round_bounds [OF this] False show ?thesis
    by simp
qed

lemma format_2024_02_29: "format_yyyy_MM_dd 19782 = ''2024-02-29''"
  by code_simp

lemma newEvent_typedState:
  "newEvent (typedState t e) =
     \<lparr>new_title = t, new_type = Demand, new_date = ''2024-02-29'',
      new_startTime = ''08:00'', new_endTime = ''09:00'', new_energyKwh = stripNonNumeric e,
      new_status = Scheduled, new_notes = []\<rparr>"
  by (simp add: typedState_def run_def initialState_def format_2024_02_29)

text \<open>
  Claim C5. If the draft's title is empty or only white space, or its date is empty, or
  its energy text is empty, or the energy text is not a number, or the number is at
  most 0, then submitting the form returns the state it was given: no event is appended,
  and the event store and the draft are unchanged.
\<close>

theorem C5_rejected_submission_changes_nothing:
  assumes "trim (new_title (newEvent st)) = [] \<or> new_date (newEvent st) = [] \<or>
    new_energyKwh (newEvent st) = [] \<or> Number (new_energyKwh (newEvent st)) = None \<or>
    (\<exists>e. Number (new_energyKwh (newEvent st)) = Some e \<and> e \<le> 0)"
  shows "handleCreateEvent nowMs st = st"
  using assms
  by (auto simp: handleCreateEvent_def Let_def split: option.splits)

theorem C5_witness:
  "trim (new_title (newEvent (typedState ''   '' ''12''))) = [] \<and>
   handleCreateEvent 1700000000000 (typedState ''   '' ''12'') = typedState ''   '' ''12'' \<and>
   new_energyKwh (newEvent (typedState ''Pump'' ''abc'')) = [] \<and>
   handleCreateEvent 1700000000000 (typedState ''Pump'' ''abc'') = typedState ''Pump'' ''abc'' \<and>
   Number (new_energyKwh (newEvent (typedState ''Pump'' ''1.2.3''))) = None \<and>
   handleCreateEvent 1700000000000 (typedState ''Pump'' ''1.2.3'') = typedState ''Pump'' ''1.2.3'' \<and>
   Number (new_energyKwh (newEvent (typedState ''Pump'' ''0.0''))) = Some 0 \<and>
   handleCreateEvent 1700000000000 (typedState ''Pump'' ''0.0'') = typedState ''Pump'' ''0.0''"
proof -
  have a: "trim (new_title (newEvent (typedState ''   '' ''12''))) = []"
    unfolding newEvent_typedState by code_simp
  have b: "new_energyKwh (newEvent (typedState ''Pump'' ''abc'')) = []"
    unfolding newEvent_typedState by code_simp
  have c: "Number (new_energyKwh (newEvent (typedState ''Pump'' ''1.2.3''))) = None"
    unfolding newEvent_typedState by code_simp
  have d: "Number (new_energyKwh (newEvent (typedState ''Pump'' ''0.0''))) = Some 0"
    unfolding newEvent_typedState by code_simp
  show ?thesis
    using a b c d
      C5_rejected_submission_changes_nothing [of "typedState ''   '' ''12''" 1700000000000]
      C5_rejected_submission_changes_nothing [of "typedState ''Pump'' ''abc''" 1700000000000]
      C5_rejected_submission_changes_nothing [of "typedState ''Pump'' ''1.2.3''" 1700000000000]
      C5_rejected_submission_changes_nothing [of "typedState ''Pump'' ''0.0''" 1700000000000]
    by simp
qed






text \<open>
  Claim C9. After an accepted submission the draft's start and end time are the fixed
  texts \<open>08:00\<close> and \<open>09:00\<close>, whatever was submitted, while the type, the date and the
  status are those of the submitted draft.
\<close>

theorem C9_times_reset_to_defaults:
  assumes "accepted st"
  shows "new_startTime (newEvent (handleCreateEvent nowMs st)) = ''08:00'' \<and>
    new_endTime (newEvent (handleCreateEvent nowMs st)) = ''09:00'' \<and>
    new_type (newEvent (handleCreateEvent nowMs st)) = new_type (newEvent st) \<and>
    new_date (newEvent (handleCreateEvent nowMs st)) = new_date (newEvent st) \<and>
    new_status (newEvent (handleCreateEvent nowMs st)) = new_status (newEvent st)"
proof -
  from handleCreateEvent_accepted [OF assms, of nowMs]
  obtain e where "handleCreateEvent nowMs st =
      st\<lparr>events := events st @ [createdEvent nowMs (newEvent st) e],
         newEvent :=
           \<lparr>new_title = [], new_type = new_type (newEvent st), new_date = new_date (newEvent st),
            new_startTime = ''08:00'', new_endTime = ''09:00'', new_energyKwh = [],
            new_status = new_status (newEvent st), new_notes = []\<rparr>\<rparr>"
    by blast
  then show ?thesis
    by simp
qed

lemma newEvent_lateShiftState:
  "newEvent lateShiftState =
     \<lparr>new_title = ''Night pump'', new_type = Demand, new_date = ''2024-02-29'',
      new_startTime = ''22:15'', new_endTime = ''23:45'', new_energyKwh = stripNonNumeric ''75'',
      new_status = Scheduled, new_notes = []\<rparr>"
  by (simp add: lateShiftState_def run_def initialState_def format_2024_02_29)

theorem C9_witness:
  "accepted lateShiftState \<and>
   new_startTime (newEvent lateShiftState) = ''22:15'' \<and>
   new_endTime (newEvent lateShiftState) = ''23:45'' \<and>
   new_startTime (newEvent (handleCreateEvent 1700000000000 lateShiftState)) = ''08:00'' \<and>
   new_endTime (newEvent (handleCreateEvent 1700000000000 lateShiftState)) = ''09:00''"
proof -
  have a: "accepted lateShiftState"
    unfolding accepted_def newEvent_lateShiftState by code_simp
  have b: "new_startTime (newEvent lateShiftState) = ''22:15''"
    unfolding newEvent_lateShiftState by code_simp
  have c: "new_endTime (newEvent lateShiftState) = ''23:45''"
    unfolding newEvent_lateShiftState by code_simp
  show ?thesis
    using a b c C9_times_reset_to_defaults [OF a, of 1700000000000] by simp
qed

text \<open>
  Claim C10. For an accepted submission whose energy text is the number \<open>e\<close> (so
  \<open>e > 0\<close>) the derived efficiency score is at least 40 and at most 90, and it is the
  rounded value itself: neither the clamp at 100 nor the one at 40 changes it.
\<close>

theorem C10_derived_score_between_40_and_90:
  assumes "accepted st" and "Number (new_energyKwh (newEvent st)) = Some e"
  shows "\<exists>ev. events (handleCreateEvent nowMs st) = events st @ [ev] \<and>
    40 \<le> efficiencyScore ev \<and> efficiencyScore ev \<le> 90 \<and>
    efficiencyScore ev = max 40 (Math_round (if e > 500 then 80 else 90 - e / 10)) \<and>
    efficiencyScore ev = Math_round (if e > 500 then 80 else 90 - e / 10)"
proof -
  from handleCreateEvent_accepted [OF assms(1), of nowMs] assms(2)
  have pos: "0 < e"
    and ev: "events (handleCreateEvent nowMs st) = events st @ [createdEvent nowMs (newEvent st) e]"
    by auto
  from derivedEfficiencyScore_range [OF pos]
  have "efficiencyScore (createdEvent nowMs (newEvent st) e) =
      Math_round (if e > 500 then 80 else 90 - e / 10)"
    by (simp add: createdEvent_def derivedEfficiencyScore_def)
  with derivedEfficiencyScore_range [OF pos] ev show ?thesis
    by auto
qed

theorem C10_witness:
  "accepted (typedState ''Heater'' ''0.5'') \<and>
   Number (new_energyKwh (newEvent (typedState ''Heater'' ''0.5''))) = Some (1 / 2) \<and>
   efficiencyScore (last (events (handleCreateEvent 1700000000000 (typedState ''Heater'' ''0.5'')))) \<le> 90 \<and>
   40 \<le> efficiencyScore (last (events (handleCreateEvent 1700000000000 (typedState ''Heater'' ''0.5''))))"
proof -
  have a: "accepted (typedState ''Heater'' ''0.5'')"
    unfolding accepted_def newEvent_typedState by code_simp
  have n: "Number (new_energyKwh (newEvent (typedState ''Heater'' ''0.5''))) = Some (1 / 2)"
    unfolding newEvent_typedState by code_simp
  show ?thesis
    using a n C10_derived_score_between_40_and_90 [OF a n, of 1700000000000] by auto
qed

section \<open>The month summary and the recommendations\<close>


lemma efficiency_foldl:
  "foldl (\<lambda>acc event. acc + efficiencyScore event) a xs = a + sum_list (map efficiencyScore xs)"
  by (induction xs arbitrary: a) simp_all

lemma format_2024_02: "format_yyyy_MM 19782 = ''2024-02''"
  by code_simp



text \<open>
  Claim C2. For every month summary and event collection the recommendation list has
  between 1 and 3 entries, and among its titles "Net Load Imbalance" occurs once if the
  net balance is negative and not at all otherwise, while "Positive Net Balance" occurs
  once if the net balance is not negative and not at all otherwise: always exactly one
  of the two, never both.
\<close>

theorem C2_exactly_one_balance_advisory:
  "1 \<le> length (recommendations s evs) \<and> length (recommendations s evs) \<le> 3 \<and>
   count_list (map rec_title (recommendations s evs)) ''Net Load Imbalance'' =
     (if netBalance s < 0 then 1 else 0) \<and>
   count_list (map rec_title (recommendations s evs)) ''Positive Net Balance'' =
     (if netBalance s < 0 then 0 else 1)"
  by (simp add: recommendations_def Let_def)

theorem C2_witness:
  "netBalance (summary (initialEvents 19782) 19782) = 780 \<and>
   count_list (map rec_title
     (recommendations (summary (initialEvents 19782) 19782) (initialEvents 19782)))
     ''Positive Net Balance'' = 1 \<and>
   count_list (map rec_title
     (recommendations (summary (initialEvents 19782) 19782) (initialEvents 19782)))
     ''Net Load Imbalance'' = 0"
proof -
  have net: "netBalance (summary (initialEvents 19782) 19782) = 780"
    by (simp add: summary_def Let_def initialEvents_def format_2024_02 startsWith_def)
  show ?thesis
    using net
      C2_exactly_one_balance_advisory [of "summary (initialEvents 19782) 19782" "initialEvents 19782"]
    by simp
qed

text \<open>
  Claim C3. For every event collection and visible month: if at least one event's date
  text starts with the month's key \<open>yyyy-MM\<close>, the average efficiency of the summary is
  the rounded arithmetic mean of \<open>efficiencyScore\<close> over exactly those events; if no
  event's date does, it is 0.
\<close>

theorem C3_average_efficiency:
  "averageEfficiency (summary evs month) =
     (if filter (\<lambda>e. startsWith (date e) (format_yyyy_MM month)) evs = [] then 0
      else Math_round
        (sum_list (map efficiencyScore (filter (\<lambda>e. startsWith (date e) (format_yyyy_MM month)) evs))
         / real (length (filter (\<lambda>e. startsWith (date e) (format_yyyy_MM month)) evs))))"
  by (simp add: summary_def Let_def efficiency_foldl)

theorem C3_witness:
  "averageEfficiency (summary (initialEvents 19782) 19782) = 77 \<and>
   averageEfficiency (summary [] 19782) = 0"
proof -
  have "Math_round (536 / 7) = 77"
    by (simp add: Math_round_def)
  then show ?thesis
    using C3_average_efficiency [of "initialEvents 19782" 19782]
      C3_average_efficiency [of "[]" 19782]
    by (simp add: initialEvents_def format_2024_02 startsWith_def)
qed

section \<open>The ids of created events\<close>

lemma toString_nonempty: "toString n \<noteq> []"
  by (subst toString.simps) simp

lemma digit_char_inj:
  assumes "x < 10" and "y < 10" and "char_of (48 + x) = (char_of (48 + y) :: char)"
  shows "x = (y::nat)"
proof -
  from assms(3) have "of_char (char_of (48 + x) :: char) = (of_char (char_of (48 + y) :: char) :: nat)"
    by simp
  then have "(48 + x) mod 256 = (48 + y) mod 256"
    by (simp only: of_char_of)
  with assms(1,2) show ?thesis
    by simp
qed

lemma toString_inj: "toString a = toString b \<Longrightarrow> a = b"
proof (induction a arbitrary: b rule: toString.induct)
  case (1 n)
  show ?case
  proof (cases "n < 10")
    case small: True
    show ?thesis
    proof (cases "b < 10")
      case True
      have "toString n = [char_of (48 + n)]"
        using small by (subst toString.simps) simp
      moreover have "toString b = [char_of (48 + b)]"
        using True by (subst toString.simps) simp
      ultimately have "char_of (48 + n) = (char_of (48 + b) :: char)"
        using "1.prems" by simp
      then show ?thesis
        by (rule digit_char_inj [OF small True])
    next
      case False
      have "toString b = toString (b div 10) @ [char_of (48 + b mod 10)]"
        using False by (subst toString.simps) simp
      moreover have "toString n = [char_of (48 + n)]"
        using small by (subst toString.simps) simp
      ultimately show ?thesis
        using "1.prems" toString_nonempty [of "b div 10"] by simp
    qed
  next
    case big: False
    have n: "toString n = toString (n div 10) @ [char_of (48 + n mod 10)]"
      using big by (subst toString.simps) simp
    show ?thesis
    proof (cases "b < 10")
      case True
      then have "toString b = [char_of (48 + b)]"
        by (subst toString.simps) simp
      with n "1.prems" toString_nonempty [of "n div 10"] show ?thesis
        by simp
    next
      case False
      then have b: "toString b = toString (b div 10) @ [char_of (48 + b mod 10)]"
        by (subst toString.simps) simp
      from n b "1.prems" have eq: "toString (n div 10) = toString (b div 10)"
        and last: "char_of (48 + n mod 10) = (char_of (48 + b mod 10) :: char)"
        by simp_all
      from "1.IH" [OF big eq] have "n div 10 = b div 10" .
      moreover have "n mod 10 = b mod 10"
        by (rule digit_char_inj [OF _ _ last]) simp_all
      ultimately have "n div 10 * 10 + n mod 10 = b div 10 * 10 + b mod 10"
        by simp
      then show ?thesis
        by (simp only: div_mult_mod_eq)
    qed
  qed
qed

lemma ids_after_run:
  "map id_ev (events (run st acts)) =
     map id_ev (events st) @ map (\<lambda>t. ''event-'' @ toString t) (acceptedReadings st acts)"
proof (induction acts arbitrary: st)
  case Nil
  show ?case by (simp add: run_def)
next
  case (Cons a acts)
  show ?case
  proof (cases a)
    case (Edit c)
    have "events (handleChange c st) = events st"
      by (cases c) simp_all
    with Cons.IH [of "handleChange c st"] Edit show ?thesis
      by (simp add: run_def)
  next
    case (Submit nowMs)
    show ?thesis
    proof (cases "accepted st")
      case True
      from handleCreateEvent_accepted [OF True, of nowMs]
      obtain e where "events (handleCreateEvent nowMs st) = events st @ [createdEvent nowMs (newEvent st) e]"
        by auto
      with Cons.IH [of "handleCreateEvent nowMs st"] Submit True show ?thesis
        by (simp add: run_def createdEvent_def)
    next
      case False
      with Cons.IH [of "handleCreateEvent nowMs st"] Submit handleCreateEvent_rejected [OF False, of nowMs]
      show ?thesis
        by (simp add: run_def)
    qed
  qed
qed

text \<open>
  Claim C8, as the code has it. The id of a created event is \<open>event-\<close> followed by the
  clock reading of its submission. For every run of edits and submissions from a state
  whose ids are pairwise distinct: if the clock readings of the accepted submissions are
  pairwise distinct and none of them gives an id the store already holds, the ids after
  the run, old and new, are pairwise distinct.
\<close>

theorem C8_ids_distinct_for_distinct_readings:
  assumes "distinct (map id_ev (events st))"
    and "distinct (acceptedReadings st acts)"
    and "\<forall>t \<in> set (acceptedReadings st acts). ''event-'' @ toString t \<notin> set (map id_ev (events st))"
  shows "distinct (map id_ev (events (run st acts)))"
proof -
  have "inj_on (\<lambda>t. ''event-'' @ toString t) (set (acceptedReadings st acts))"
    by (rule inj_onI) (simp add: toString_inj)
  with assms(2) have "distinct (map (\<lambda>t. ''event-'' @ toString t) (acceptedReadings st acts))"
    by (simp add: distinct_map)
  moreover have "set (map id_ev (events st)) \<inter>
      set (map (\<lambda>t. ''event-'' @ toString t) (acceptedReadings st acts)) = {}"
  proof (rule ccontr)
    assume "set (map id_ev (events st)) \<inter>
      set (map (\<lambda>t. ''event-'' @ toString t) (acceptedReadings st acts)) \<noteq> {}"
    then obtain x where old: "x \<in> set (map id_ev (events st))"
      and new: "x \<in> set (map (\<lambda>t. ''event-'' @ toString t) (acceptedReadings st acts))"
      by blast
    from new obtain t where "t \<in> set (acceptedReadings st acts)" and "x = ''event-'' @ toString t"
      by (auto simp del: append.simps)
    with assms(3) old show False
      by blast
  qed
  ultimately show ?thesis
    unfolding ids_after_run using assms(1) by (simp only: distinct_append)
qed

lemma Number_5: "Number ''5'' = Some 5"
  by code_simp

lemma Number_7: "Number ''7'' = Some 7"
  by code_simp

lemma trim_Pump_A: "trim ''Pump A'' = ''Pump A''"
  by code_simp

lemma trim_Pump_B: "trim ''Pump B'' = ''Pump B''"
  by code_simp

lemma strip_5: "stripNonNumeric ''5'' = ''5''"
  by code_simp

lemma strip_7: "stripNonNumeric ''7'' = ''7''"
  by code_simp

lemma newEvent_after_accepted:
  assumes "accepted st"
  shows "newEvent (handleCreateEvent nowMs st) =
     \<lparr>new_title = [], new_type = new_type (newEvent st), new_date = new_date (newEvent st),
      new_startTime = ''08:00'', new_endTime = ''09:00'', new_energyKwh = [],
      new_status = new_status (newEvent st), new_notes = []\<rparr>"
proof -
  from handleCreateEvent_accepted [OF assms, of nowMs]
  obtain e where "handleCreateEvent nowMs st =
      st\<lparr>events := events st @ [createdEvent nowMs (newEvent st) e],
         newEvent :=
           \<lparr>new_title = [], new_type = new_type (newEvent st), new_date = new_date (newEvent st),
            new_startTime = ''08:00'', new_endTime = ''09:00'', new_energyKwh = [],
            new_status = new_status (newEvent st), new_notes = []\<rparr>\<rparr>"
    by blast
  then show ?thesis
    by simp
qed

lemma newEvent_ChangeTitle:
  "newEvent (handleChange (ChangeTitle v) st) = (newEvent st)\<lparr>new_title := v\<rparr>"
  by simp

lemma newEvent_ChangeEnergyKwh:
  "newEvent (handleChange (ChangeEnergyKwh v) st) =
     (newEvent st)\<lparr>new_energyKwh := stripNonNumeric v\<rparr>"
  by simp

lemma acceptedReadings_twoSubmissions:
  "acceptedReadings (initialState 19782) (twoSubmissions t1 t2) = [t1, t2]"
proof -
  let ?s0 = "initialState 19782"
  let ?s1 = "handleChange (ChangeEnergyKwh ''5'') (handleChange (ChangeTitle ''Pump A'') ?s0)"
  let ?s2 = "handleChange (ChangeEnergyKwh ''7'')
    (handleChange (ChangeTitle ''Pump B'') (handleCreateEvent t1 ?s1))"
  have n1: "newEvent ?s1 =
     \<lparr>new_title = ''Pump A'', new_type = Demand, new_date = ''2024-02-29'',
      new_startTime = ''08:00'', new_endTime = ''09:00'', new_energyKwh = ''5'',
      new_status = Scheduled, new_notes = []\<rparr>"
    unfolding newEvent_ChangeTitle newEvent_ChangeEnergyKwh
    by (simp add: initialState_def strip_5 format_2024_02_29)
  have a1: "accepted ?s1"
    unfolding accepted_def n1 by (simp add: Number_5 trim_Pump_A)
  have n2: "newEvent ?s2 =
     \<lparr>new_title = ''Pump B'', new_type = Demand, new_date = ''2024-02-29'',
      new_startTime = ''08:00'', new_endTime = ''09:00'', new_energyKwh = ''7'',
      new_status = Scheduled, new_notes = []\<rparr>"
    unfolding newEvent_ChangeTitle newEvent_ChangeEnergyKwh newEvent_after_accepted [OF a1] n1
    by (simp add: strip_7 initialState_def format_2024_02_29)
  have a2: "accepted ?s2"
    unfolding accepted_def n2 by (simp add: Number_7 trim_Pump_B)
  have "acceptedReadings ?s0 (twoSubmissions t1 t2) =
      acceptedReadings ?s1 [Submit t1, Edit (ChangeTitle ''Pump B''),
        Edit (ChangeEnergyKwh ''7''), Submit t2]"
    by (simp only: twoSubmissions_def acceptedReadings.simps)
  also have "\<dots> = t1 # acceptedReadings (handleCreateEvent t1 ?s1)
      [Edit (ChangeTitle ''Pump B''), Edit (ChangeEnergyKwh ''7''), Submit t2]"
    using a1 by (simp only: acceptedReadings.simps if_True)
  also have "\<dots> = t1 # acceptedReadings ?s2 [Submit t2]"
    by (simp only: acceptedReadings.simps)
  also have "\<dots> = [t1, t2]"
    using a2 by (simp only: acceptedReadings.simps if_True)
  finally show ?thesis .
qed

lemma ids_initialState:
  "map id_ev (events (initialState 19782)) =
     [''event-1'', ''event-2'', ''event-3'', ''event-4'', ''event-5'', ''event-6'', ''event-7'']"
  by (simp add: initialState_def initialEvents_def)

lemma digit_chars:
  "char_of (48::nat) = CHR ''0''" "char_of (49::nat) = CHR ''1''" "char_of (50::nat) = CHR ''2''"
  "char_of (51::nat) = CHR ''3''" "char_of (52::nat) = CHR ''4''" "char_of (53::nat) = CHR ''5''"
  "char_of (54::nat) = CHR ''6''" "char_of (55::nat) = CHR ''7''" "char_of (56::nat) = CHR ''8''"
  "char_of (57::nat) = CHR ''9''"
  by code_simp+

lemma toString_1700000000000: "toString 1700000000000 = ''1700000000000''"
  by (simp add: toString.simps digit_chars)

lemma toString_1700000000001: "toString 1700000000001 = ''1700000000001''"
  by (simp add: toString.simps digit_chars)

theorem C8_witness:
  "distinct (map id_ev (events (initialState 19782))) \<and>
   acceptedReadings (initialState 19782) (twoSubmissions 1700000000000 1700000000001) =
     [1700000000000, 1700000000001] \<and>
   distinct (map id_ev (events (run (initialState 19782)
     (twoSubmissions 1700000000000 1700000000001))))"
proof -
  have a: "distinct (map id_ev (events (initialState 19782)))"
    unfolding ids_initialState by simp
  have b: "distinct (acceptedReadings (initialState 19782)
      (twoSubmissions 1700000000000 1700000000001))"
    unfolding acceptedReadings_twoSubmissions by simp
  have c: "\<forall>t \<in> set (acceptedReadings (initialState 19782)
      (twoSubmissions 1700000000000 1700000000001)).
      ''event-'' @ toString t \<notin> set (map id_ev (events (initialState 19782)))"
    unfolding acceptedReadings_twoSubmissions ids_initialState
    by (simp add: toString_1700000000000 toString_1700000000001)
  from C8_ids_distinct_for_distinct_readings [OF a b c] a show ?thesis
    by (simp add: acceptedReadings_twoSubmissions)
qed

text \<open>The claim as the spec words it, ids distinct for every sequence of accepted
  submissions, fails: two accepted submissions at the same clock reading get the same
  id.\<close>

theorem C8_counterexample:
  "distinct (map id_ev (events (initialState 19782))) \<and>
   acceptedReadings (initialState 19782) (twoSubmissions 1700000000000 1700000000000) =
     [1700000000000, 1700000000000] \<and>
   map id_ev (events (run (initialState 19782)
     (twoSubmissions 1700000000000 1700000000000))) =
     [''event-1'', ''event-2'', ''event-3'', ''event-4'', ''event-5'', ''event-6'', ''event-7'',
      ''event-1700000000000'', ''event-1700000000000''] \<and>
   \<not> distinct (map id_ev (events (run (initialState 19782)
     (twoSubmissions 1700000000000 1700000000000))))"
  unfolding ids_after_run acceptedReadings_twoSubmissions ids_initialState
  by (simp add: toString_1700000000000)

section \<open>The energy text\<close>

text \<open>The energy text of the draft is empty at the start, is filtered on every edit and
  is emptied by an accepted submission: in every state the component reaches it holds
  digits and full stops only, the strings on which \<open>Number\<close> is modelled.\<close>

lemma numericText_initialState: "numericText (new_energyKwh (newEvent (initialState now)))"
  by (simp add: initialState_def numericText_def)

lemma numericText_step:
  assumes "numericText (new_energyKwh (newEvent st))"
  shows "numericText (new_energyKwh (newEvent (step st a)))"
proof (cases a)
  case (Edit c)
  with assms show ?thesis
    by (cases c) (simp_all add: numericText_def stripNonNumeric_def list_all_iff)
next
  case (Submit nowMs)
  show ?thesis
  proof (cases "accepted st")
    case True
    with Submit show ?thesis
      by (simp add: newEvent_after_accepted numericText_def)
  next
    case False
    with Submit assms show ?thesis
      by (simp add: handleCreateEvent_rejected)
  qed
qed

lemma numericText_run:
  assumes "numericText (new_energyKwh (newEvent st))"
  shows "numericText (new_energyKwh (newEvent (run st acts)))"
  using assms
proof (induction acts arbitrary: st)
  case Nil
  then show ?case
    by (simp add: run_def)
next
  case (Cons a acts)
  from Cons.IH [OF numericText_step [OF Cons.prems, of a]] show ?case
    by (simp add: run_def)
qed

lemma numericText_reachable:
  "numericText (new_energyKwh (newEvent (run (initialState now) acts)))"
  by (rule numericText_run [OF numericText_initialState])

section \<open>The month grid\<close>

lemma div_succ:
  fixes a n :: int
  assumes "0 < n"
  shows "(a + 1) div n = a div n + (if (a + 1) mod n = 0 then 1 else 0)"
proof -
  define q r where "q = a div n" and "r = a mod n"
  have a: "a = n * q + r"
    by (simp add: q_def r_def)
  have r: "0 \<le> r" "r < n"
    using assms by (simp_all add: r_def)
  show ?thesis
  proof (cases "r + 1 = n")
    case True
    have "a + 1 = n * q + (r + 1)"
      using a by simp
    also have "\<dots> = n * (q + 1)"
      using True by (simp add: distrib_left)
    finally have "(a + 1) div n = q + 1" and "(a + 1) mod n = 0"
      using assms by simp_all
    then show ?thesis
      by (simp add: q_def)
  next
    case False
    with r have lt: "r + 1 < n"
      by simp
    have eq: "a + 1 = n * q + (r + 1)"
      using a by simp
    have nonneg: "0 \<le> r + 1"
      using r by simp
    have "(a + 1) div n = q"
      by (rule int_div_pos_eq [OF eq nonneg lt])
    moreover have "(a + 1) mod n = r + 1"
      by (rule int_mod_pos_eq [OF eq nonneg lt])
    ultimately show ?thesis
      using r by (simp add: q_def)
  qed
qed

lemma leap_mod4: "((y::int) - 1968) mod 4 = y mod 4"
proof -
  have "y - 1968 = y + 4 * (- 492)" by simp
  then show ?thesis by (simp only: mod_mult_self2)
qed

lemma leap_mod100: "((y::int) - 1900) mod 100 = y mod 100"
proof -
  have "y - 1900 = y + 100 * (- 19)" by simp
  then show ?thesis by (simp only: mod_mult_self2)
qed

lemma leap_mod400: "((y::int) - 1600) mod 400 = y mod 400"
proof -
  have "y - 1600 = y + 400 * (- 4)" by simp
  then show ?thesis by (simp only: mod_mult_self2)
qed

lemma mod100_4: "(y::int) mod 100 = 0 \<Longrightarrow> y mod 4 = 0"
  using mod_mod_cancel [of 4 100 y] by simp

lemma mod400_100: "(y::int) mod 400 = 0 \<Longrightarrow> y mod 100 = 0"
  using mod_mod_cancel [of 100 400 y] by simp

lemma dayFromYear_step: "dayFromYear (y + 1) = dayFromYear y + 365 + inLeapYear y"
proof -
  have gen: "a' = a + p \<Longrightarrow> b' = b + q \<Longrightarrow> c' = c + r \<Longrightarrow>
      365 * (y + 1 - 1970) + a' - b' + c' = 365 * (y - 1970) + a - b + c + 365 + (p - q + r)"
    for a a' b b' c c' p q r :: int
    by simp
  have a: "(y + 1 - 1969) div 4 = (y - 1969) div 4 + (if y mod 4 = 0 then 1 else 0)"
    using div_succ [of 4 "y - 1969"] leap_mod4 [of y] by (simp add: algebra_simps)
  have b: "(y + 1 - 1901) div 100 = (y - 1901) div 100 + (if y mod 100 = 0 then 1 else 0)"
    using div_succ [of 100 "y - 1901"] leap_mod100 [of y] by (simp add: algebra_simps)
  have c: "(y + 1 - 1601) div 400 = (y - 1601) div 400 + (if y mod 400 = 0 then 1 else 0)"
    using div_succ [of 400 "y - 1601"] leap_mod400 [of y] by (simp add: algebra_simps)
  have leap: "inLeapYear y = (if y mod 4 = 0 then 1 else 0) - (if y mod 100 = 0 then 1 else 0)
      + (if y mod 400 = 0 then 1 else 0)"
    using mod100_4 [of y] mod400_100 [of y] by (auto simp: inLeapYear_def)
  show ?thesis
    unfolding dayFromYear_def leap by (rule gen [OF a b c])
qed

lemma inLeapYear_cases: "inLeapYear y = 0 \<or> inLeapYear y = 1"
  by (simp add: inLeapYear_def)

lemma yearDown_le: "dayFromYear (yearDown y d) \<le> d"
proof (induction y d rule: yearDown.induct)
  case (1 y d)
  show ?case
  proof (cases "d < dayFromYear y")
    case True
    with "1.IH" show ?thesis
      by (subst yearDown.simps) simp
  next
    case False
    then show ?thesis
      by (subst yearDown.simps) simp
  qed
qed

lemma yearUp_bounds:
  "dayFromYear y \<le> d \<Longrightarrow>
   dayFromYear (yearUp y d) \<le> d \<and> d < dayFromYear (yearUp y d + 1)"
proof (induction y d rule: yearUp.induct)
  case (1 y d)
  show ?case
  proof (cases "dayFromYear (y + 1) \<le> d")
    case True
    with "1.IH" show ?thesis
      by (subst (1 2) yearUp.simps) simp
  next
    case False
    with "1.prems" show ?thesis
      by (subst (1 2) yearUp.simps) simp
  qed
qed

lemma getFullYear_bounds:
  "dayFromYear (getFullYear d) \<le> d \<and> d < dayFromYear (getFullYear d + 1)"
  unfolding getFullYear_def by (rule yearUp_bounds [OF yearDown_le])

lemma dayWithinYear_bounds:
  "0 \<le> dayWithinYear d \<and> dayWithinYear d < 365 + inLeapYear (getFullYear d)"
  using getFullYear_bounds [of d] dayFromYear_step [of "getFullYear d"]
  by (simp add: dayWithinYear_def)

lemma getMonth_range: "0 \<le> getMonth d \<and> getMonth d \<le> 11"
  by (simp add: getMonth_def Let_def)

lemma getMonth_bounds:
  "monthStart (inLeapYear (getFullYear d)) (getMonth d) \<le> dayWithinYear d \<and>
   dayWithinYear d < monthStart (inLeapYear (getFullYear d)) (getMonth d + 1)"
  using dayWithinYear_bounds [of d] inLeapYear_cases [of "getFullYear d"]
  by (auto simp: getMonth_def Let_def monthStart_def)

lemma makeDay_in_year:
  assumes "0 \<le> m" and "m \<le> 11"
  shows "makeDay y m dt = dayFromYear y + monthStart (inLeapYear y) m + dt - 1"
proof -
  from assms have "m div 12 = 0" and "m mod 12 = m"
    by simp_all
  then show ?thesis
    by (simp add: makeDay_def Let_def)
qed

lemma setDate_shift: "setDate d (getDate d + k) = d + k"
  using getMonth_range [of d]
  by (simp add: setDate_def makeDay_in_year getDate_def dayWithinYear_def)

lemma getDay_range: "0 \<le> getDay d \<and> getDay d \<le> 6"
  by (simp add: getDay_def)

lemma startOfWeek_Sunday: "startOfWeek d 0 = d - getDay d"
  using getDay_range [of d] setDate_shift [of d "- getDay d"]
  by (simp add: startOfWeek_def Let_def)

lemma endOfWeek_Saturday: "endOfWeek d 0 = d + (6 - getDay d)"
  using getDay_range [of d] setDate_shift [of d "6 - getDay d"]
  by (simp add: endOfWeek_def Let_def)

lemma startOfMonth_eq:
  "startOfMonth d = dayFromYear (getFullYear d) + monthStart (inLeapYear (getFullYear d)) (getMonth d)"
  using getMonth_range [of d] by (simp add: startOfMonth_def setDate_def makeDay_in_year)

lemma endOfMonth_eq:
  "endOfMonth d =
     dayFromYear (getFullYear d) + monthStart (inLeapYear (getFullYear d)) (getMonth d + 1) - 1"
proof (cases "getMonth d = 11")
  case True
  have "makeDay (getFullYear d) 12 0 = dayFromYear (getFullYear d + 1) - 1"
    by (simp add: makeDay_def Let_def monthStart_def)
  with True show ?thesis
    by (simp add: endOfMonth_def Let_def setFullYear_def dayFromYear_step monthStart_def)
next
  case False
  with getMonth_range [of d] have "0 \<le> getMonth d + 1" and "getMonth d + 1 \<le> 11"
    by simp_all
  then show ?thesis
    by (simp add: endOfMonth_def Let_def setFullYear_def makeDay_in_year)
qed

lemma month_between:
  assumes "isSameMonth d v"
  shows "startOfMonth v \<le> d \<and> d \<le> endOfMonth v"
proof -
  from assms have y: "getFullYear d = getFullYear v" and m: "getMonth d = getMonth v"
    by (simp_all add: isSameMonth_def)
  from getMonth_bounds [of d] show ?thesis
    unfolding startOfMonth_eq endOfMonth_eq y m
    by (simp add: dayWithinYear_def y)
qed

lemma eachDayLoop_upto:
  "cur \<le> e + 1 \<Longrightarrow> eachDayLoop cur e acc = Some (acc @ [cur..e])"
proof (induction "nat (e + 1 - cur)" arbitrary: cur acc)
  case 0
  then have "\<not> cur \<le> e"
    by simp
  then show ?case
    by (subst eachDayLoop.simps) simp
next
  case (Suc n)
  then have le: "cur \<le> e"
    by simp
  from Suc.hyps(2) have "n = nat (e + 1 - (cur + 1))"
    by simp
  from Suc.hyps(1) [OF this, of "acc @ [cur]"] le
  have "eachDayLoop (cur + 1) e (acc @ [cur]) = Some ((acc @ [cur]) @ [cur + 1..e])"
    by simp
  moreover have "[cur..e] = cur # [cur + 1..e]"
    using le by (rule upto_rec1)
  ultimately show ?case
    using le setDate_shift [of cur 1] by (subst eachDayLoop.simps) simp
qed

lemma isSameMonth_refl: "isSameMonth v v"
  by (simp add: isSameMonth_def)

lemma grid_order:
  "startOfWeek (startOfMonth v) 0 \<le> startOfMonth v \<and> startOfMonth v \<le> endOfMonth v \<and>
   endOfMonth v \<le> endOfWeek (endOfMonth v) 0"
  using getDay_range [of "startOfMonth v"] getDay_range [of "endOfMonth v"]
    month_between [OF isSameMonth_refl, of v]
  by (simp add: startOfWeek_Sunday endOfWeek_Saturday)

lemma monthInterval_upto:
  "monthInterval v = Some [startOfWeek (startOfMonth v) 0..endOfWeek (endOfMonth v) 0]"
proof -
  from grid_order [of v]
  have "\<not> startOfWeek (startOfMonth v) 0 > endOfWeek (endOfMonth v) 0"
    and "startOfWeek (startOfMonth v) 0 \<le> endOfWeek (endOfMonth v) 0 + 1"
    by simp_all
  then show ?thesis
    unfolding monthInterval_def eachDayOfInterval_def Let_def
    by (simp add: eachDayLoop_upto)
qed

lemma grid_length_week:
  "(endOfWeek (endOfMonth v) 0 - startOfWeek (startOfMonth v) 0 + 1) mod 7 = 0"
proof -
  have s: "(startOfWeek (startOfMonth v) 0 + 4) mod 7 = 0"
    unfolding startOfWeek_Sunday getDay_def by presburger
  have e: "(endOfWeek (endOfMonth v) 0 + 4) mod 7 = 6"
    unfolding endOfWeek_Saturday getDay_def by presburger
  from s e show ?thesis
    by presburger
qed

lemma count_list_upto:
  assumes "i \<le> d" and "d \<le> j"
  shows "count_list [i..j] d = 1"
proof -
  have "[i..j] = [i..d - 1] @ d # [d + 1..j]"
    using assms by (rule upto_split3)
  then show ?thesis
    by simp
qed

text \<open>
  Claim C4. For every reference month the grid is produced (the loop of
  \<open>eachDayOfInterval\<close> returns), its length is a multiple of 7, it holds no date twice,
  it holds every date of the month of the reference date exactly once, and each element
  is the day after the one before it.
\<close>

theorem C4_month_grid:
  "\<exists>grid. monthInterval v = Some grid \<and>
     7 dvd length grid \<and>
     distinct grid \<and>
     (\<forall>d. isSameMonth d v \<longrightarrow> count_list grid d = 1) \<and>
     (\<forall>i. Suc i < length grid \<longrightarrow> grid ! Suc i = grid ! i + 1)"
proof -
  let ?grid = "[startOfWeek (startOfMonth v) 0..endOfWeek (endOfMonth v) 0]"
  have len: "int (length ?grid) = endOfWeek (endOfMonth v) 0 - startOfWeek (startOfMonth v) 0 + 1"
    using grid_order [of v] by simp
  have "7 dvd int (length ?grid)"
    unfolding len using grid_length_week [of v] by presburger
  then have week: "7 dvd length ?grid"
    by presburger
  have month: "count_list ?grid d = 1" if "isSameMonth d v" for d
    using month_between [OF that] grid_order [of v] by (intro count_list_upto) simp_all
  have succ: "?grid ! Suc i = ?grid ! i + 1" if "Suc i < length ?grid" for i
  proof -
    from that len have "startOfWeek (startOfMonth v) 0 + int (Suc i) \<le> endOfWeek (endOfMonth v) 0" and "startOfWeek (startOfMonth v) 0 + int i \<le> endOfWeek (endOfMonth v) 0"
      by simp_all
    then show ?thesis
      by (simp add: nth_upto)
  qed
  show ?thesis
    using monthInterval_upto [of v] week month succ by (intro exI [of _ ?grid]) simp
qed

theorem C4_witness:
  "monthInterval 19782 = Some [19750..19784] \<and>
   7 dvd length [19750..19784] \<and>
   isSameMonth 19754 19782 \<and> count_list [19750..19784] 19754 = 1 \<and>
   isSameMonth 19782 19782 \<and> count_list [19750..19784] 19782 = 1 \<and>
   Suc 0 < length [19750..19784] \<and> [19750..19784] ! Suc 0 = [19750..19784] ! 0 + 1"
proof -
  have grid: "monthInterval 19782 = Some [19750..19784]"
    by code_simp
  have first: "isSameMonth 19754 19782"
    by code_simp
  have last: "isSameMonth 19782 19782"
    by code_simp
  have len: "Suc 0 < length [19750..19784]"
    by simp
  from C4_month_grid [of 19782] obtain g where g: "monthInterval 19782 = Some g"
    and week: "7 dvd length g"
    and month: "\<forall>d. isSameMonth d 19782 \<longrightarrow> count_list g d = 1"
    and succ: "\<forall>i. Suc i < length g \<longrightarrow> g ! Suc i = g ! i + 1"
    by blast
  from g grid have eq: "g = [19750..19784]"
    by simp
  from week month succ first last len grid show ?thesis
    unfolding eq by blast
qed

end
